theory Spec2Isabelle
  imports Complex_Main "HOL-Library.Word" "HOL-Library.AList"
begin

section \<open>The sign-to-vox flow (src/ai/flows/sign-to-vox-flow.ts)\<close>

text \<open>
  A shallow embedding of \<^verbatim>\<open>generateSignToVoxFlow\<close>.  JavaScript numbers are modelled at
  their integer values as \<^typ>\<open>int\<close> (the fields the schema declares as plain numbers are
  taken at integer values too, which is what the calling component passes); the half-cell
  offsets of the two corner tests are computed in \<^typ>\<open>rat\<close>, where they are exact.
  Strings are lists of UTF-16 code units.  The closure \<^verbatim>\<open>addVoxel\<close> mutates a
  \<^verbatim>\<open>Map\<close>; here every call is first recorded, in program order, as a tuple
  \<open>(px, py, pz, colorIndex)\<close>, and the map is the result of running the calls one after the
  other.  The imported functions \<^verbatim>\<open>rasterizePixelText\<close> and \<^verbatim>\<open>writeVox\<close> and the
  built-ins \<^verbatim>\<open>toUpperCase\<close> and base64 encoding are parameters of the model.
\<close>

subsection \<open>Data\<close>

datatype sign_type = standard | hanging

datatype icon_position = left | right

datatype error = ValidationError | RasterizerError | RangeError

type_synonym js_string = "nat list"

text \<open>\<^verbatim>\<open>PixelDataSchema\<close>: the icon bitmap of the input.\<close>

record pixel_data =
  pixels :: "bool list"
  pwidth :: int
  pheight :: int
  poffsetY :: "int option"

text \<open>\<^verbatim>\<open>SignToVoxInputSchema\<close>; the field \<^verbatim>\<open>text\<close> is called \<open>sign_text\<close> here.\<close>

record params =
  signType :: sign_type
  width :: int
  height :: int
  frame :: bool
  frameWidth :: int
  hangingWidth :: int
  hangingIconPosition :: icon_position
  hangingSignThickness :: int
  hangingSignIconOffsetX :: int
  hangingSignTextOffsetX :: int
  icon :: "pixel_data option"
  sign_text :: js_string
  signIconScale :: rat
  signIconOffsetY :: int
  textOffsetY :: int
  signWithIcon :: bool

text \<open>One line of rasterized text, and the result of the external rasterizer.\<close>

record text_line =
  lwidth :: int
  lheight :: int
  lpixels :: "bool list"

record raster =
  lines :: "text_line list"
  totalHeight :: int

datatype item_type = IconItem | TextItem

text \<open>An element of \<^verbatim>\<open>contentItems\<close>.\<close>

record content_item =
  itype :: item_type
  iwidth :: int
  iheight :: int
  ipixels :: "bool list"
  ioffsetX :: int
  ioffsetY :: int

record rgba =
  rgba_r :: nat
  rgba_g :: nat
  rgba_b :: nat
  rgba_a :: nat

type_synonym coord = "int \<times> int \<times> int"

type_synonym voxel_call = "int \<times> int \<times> int \<times> nat"

text \<open>
  The \<^verbatim>\<open>Map\<close> in insertion order: a new key goes to the end, an existing key keeps its
  place and gets the new value.  A key is the triple of 32-bit integers that the template
  string prints.
\<close>

type_synonym voxel_map = "(coord \<times> nat) list"

record vox_xyzi =
  numVoxels :: int
  xyzi_values :: "(int \<times> int \<times> int \<times> nat) list"

record vox_object =
  vox_size :: "int \<times> int \<times> int"
  xyzi :: vox_xyzi
  rgba_values :: "rgba list"

text \<open>The functions the flow imports.\<close>

record env =
  toUpperCase :: "js_string \<Rightarrow> js_string"
  rasterizePixelText :: "js_string \<Rightarrow> int \<Rightarrow> error + raster"
  writeVox :: "vox_object \<Rightarrow> nat list"
  base64 :: "nat list \<Rightarrow> string"

text \<open>\<^verbatim>\<open>SignToVoxOutput\<close>.\<close>

record sign_to_vox_output =
  schematicData :: string
  out_width :: int
  out_height :: int
  out_depth :: int
  isVox :: bool
  voxData :: string
  voxSize :: "int \<times> int \<times> int"
  totalVoxels :: int

subsection \<open>Built-ins of the language\<close>

text \<open>\<^verbatim>\<open>n|0\<close> on an integer: the value is reduced to a signed 32-bit integer.\<close>

definition toInt32 :: "int \<Rightarrow> int" where
  "toInt32 n = sint (word_of_int n :: 32 word)"

text \<open>The code units that \<^verbatim>\<open>String.prototype.trim\<close> strips (white space and line terminators).\<close>

definition isWhiteSpace :: "nat \<Rightarrow> bool" where
  "isWhiteSpace c \<longleftrightarrow>
     c = 0x09 \<or> c = 0x0A \<or> c = 0x0B \<or> c = 0x0C \<or> c = 0x0D \<or> c = 0x20 \<or> c = 0xA0
     \<or> c = 0x1680 \<or> (0x2000 \<le> c \<and> c \<le> 0x200A) \<or> c = 0x2028 \<or> c = 0x2029
     \<or> c = 0x202F \<or> c = 0x205F \<or> c = 0x3000 \<or> c = 0xFEFF"

definition trim :: "js_string \<Rightarrow> js_string" where
  "trim s = rev (dropWhile isWhiteSpace (rev (dropWhile isWhiteSpace s)))"

text \<open>\<^verbatim>\<open>arr[k]\<close> used as a condition: a read outside the array is \<^verbatim>\<open>undefined\<close>, which is falsy.\<close>

definition js_get :: "bool list \<Rightarrow> int \<Rightarrow> bool" where
  "js_get xs k \<longleftrightarrow> 0 \<le> k \<and> k < int (length xs) \<and> xs ! nat k"

text \<open>
  \<^verbatim>\<open>arr[k] = true\<close>: a store past the end extends the array, the holes read as falsy; a store
  at a negative key makes a named property, which no indexed read at \<open>k \<ge> 0\<close> sees.
\<close>

definition js_store_true :: "bool list \<Rightarrow> int \<Rightarrow> bool list" where
  "js_store_true xs k =
     (if k < 0 then xs
      else if nat k < length xs then xs[nat k := True]
      else xs @ replicate (nat k - length xs) False @ [True])"

text \<open>Decimal printing of an integer, as a template string does it.\<close>

function show_nat :: "nat \<Rightarrow> string" where
  "show_nat n = (if n < 10 then [char_of (48 + n)] else show_nat (n div 10) @ [char_of (48 + n mod 10)])"
  by pat_completeness auto
termination
  by (relation "measure id") auto

definition show_int :: "int \<Rightarrow> string" where
  "show_int i = (if i < 0 then CHR ''-'' # show_nat (nat (- i)) else show_nat (nat i))"

subsection \<open>Validation\<close>

text \<open>\<^verbatim>\<open>SignToVoxInputSchema.parse\<close>: the four minimums; every other constraint is a type.\<close>

definition SignToVoxInputSchema_parse :: "params \<Rightarrow> error + params" where
  "SignToVoxInputSchema_parse input =
     (if 16 \<le> width input \<and> 16 \<le> height input \<and> 1 \<le> frameWidth input
         \<and> 1 \<le> hangingSignThickness input
      then Inr input else Inl ValidationError)"

subsection \<open>The voxel map\<close>

definition voxel_key :: "int \<Rightarrow> int \<Rightarrow> int \<Rightarrow> coord" where
  "voxel_key px py pz = (toInt32 px, toInt32 py, toInt32 pz)"

definition addVoxel :: "voxel_map \<Rightarrow> voxel_call \<Rightarrow> voxel_map" where
  "addVoxel voxelMap c =
     (case c of (px, py, pz, colorIndex) \<Rightarrow> AList.update (voxel_key px py pz) colorIndex voxelMap)"

definition run_calls :: "voxel_map \<Rightarrow> voxel_call list \<Rightarrow> voxel_map" where
  "run_calls voxelMap cs = foldl addVoxel voxelMap cs"

definition call_key :: "voxel_call \<Rightarrow> coord" where
  "call_key c = (case c of (px, py, pz, colorIndex) \<Rightarrow> voxel_key px py pz)"

definition call_color :: "voxel_call \<Rightarrow> nat" where
  "call_color c = (case c of (px, py, pz, colorIndex) \<Rightarrow> colorIndex)"

subsection \<open>Dimensions\<close>

definition signWidth :: "params \<Rightarrow> int" where
  "signWidth p = (if signType p = hanging then hangingWidth p else width p)"

definition signHeight :: "params \<Rightarrow> int" where
  "signHeight p = (if signType p = hanging then 16 else height p)"

definition modelDepth :: int where
  "modelDepth = 32"

subsection \<open>Background and frame generation\<close>

definition checkCorner :: "int \<Rightarrow> int \<Rightarrow> int \<Rightarrow> int \<Rightarrow> int \<Rightarrow> bool" where
  "checkCorner x y cx cy radius \<longleftrightarrow>
     (\<bar>x - cx\<bar> < radius \<and> \<bar>y - cy\<bar> < radius)
     \<and> ((of_int (x - cx) + 1/2 :: rat)\<^sup>2 + (of_int (y - cy) + 1/2)\<^sup>2 > (of_int radius)\<^sup>2)"

text \<open>The body of the inner loop of the frame: the variable \<^verbatim>\<open>isFrame\<close> through its six updates.\<close>

definition isFrame :: "params \<Rightarrow> int \<Rightarrow> int \<Rightarrow> bool" where
  "isFrame p x y =
     (let cornerRadius = frameWidth p * 2;
          isFrame0 = False;
          isFrame1 = (if y < frameWidth p \<or> y \<ge> signHeight p - frameWidth p then True else isFrame0);
          isFrame2 = (if x < frameWidth p \<or> x \<ge> signWidth p - frameWidth p then True else isFrame1);
          isFrame3 = (if checkCorner x y cornerRadius cornerRadius cornerRadius
                      then False else isFrame2);
          isFrame4 = (if checkCorner x y (signWidth p - 1 - cornerRadius) cornerRadius cornerRadius
                      then False else isFrame3);
          isFrame5 = (if checkCorner x y cornerRadius (signHeight p - 1 - cornerRadius) cornerRadius
                      then False else isFrame4);
          isFrame6 = (if checkCorner x y (signWidth p - 1 - cornerRadius)
                           (signHeight p - 1 - cornerRadius) cornerRadius
                      then False else isFrame5)
      in isFrame6)"

definition frame_calls :: "params \<Rightarrow> voxel_call list" where
  "frame_calls p =
     [(x, y, 15, 2). y \<leftarrow> [0 .. signHeight p - 1], x \<leftarrow> [0 .. signWidth p - 1], isFrame p x y]"

definition isInside :: "params \<Rightarrow> int \<Rightarrow> int \<Rightarrow> bool" where
  "isInside p x y =
     (let cornerRadius = (4 :: int);
          cr = (of_int cornerRadius :: rat);
          fx = (of_int x + 1/2 :: rat);
          fy = (of_int y + 1/2 :: rat)
      in (x \<ge> cornerRadius \<and> x < signWidth p - cornerRadius)
         \<or> (y \<ge> cornerRadius \<and> y < signHeight p - cornerRadius)
         \<or> ((fx - cr)\<^sup>2 + (fy - cr)\<^sup>2 \<le> cr\<^sup>2)
         \<or> ((fx - of_int (signWidth p - cornerRadius))\<^sup>2 + (fy - cr)\<^sup>2 \<le> cr\<^sup>2)
         \<or> ((fx - cr)\<^sup>2 + (fy - of_int (signHeight p - cornerRadius))\<^sup>2 \<le> cr\<^sup>2)
         \<or> ((fx - of_int (signWidth p - cornerRadius))\<^sup>2
              + (fy - of_int (signHeight p - cornerRadius))\<^sup>2 \<le> cr\<^sup>2))"

definition zStart :: int where
  "zStart = 16"

definition backplate_calls :: "params \<Rightarrow> voxel_call list" where
  "backplate_calls p =
     [(x, y, zStart + z, 1).
        z \<leftarrow> [0 .. hangingSignThickness p - 1],
        y \<leftarrow> [0 .. signHeight p - 1],
        x \<leftarrow> [0 .. signWidth p - 1],
        isInside p x y]"

definition shape_calls :: "params \<Rightarrow> voxel_call list" where
  "shape_calls p =
     (if signType p = standard \<and> frame p then frame_calls p
      else if signType p = hanging then backplate_calls p
      else [])"

subsection \<open>Content layout\<close>

definition hasIcon :: "params \<Rightarrow> bool" where
  "hasIcon p = (case icon p of None \<Rightarrow> False | Some ic \<Rightarrow> length (pixels ic) > 0 \<and> signWithIcon p)"

definition pad :: "params \<Rightarrow> int" where
  "pad p = (if signType p = standard \<and> frame p then frameWidth p
            else (if signType p = hanging then 2 else 0))"

definition availableWidth :: "params \<Rightarrow> int" where
  "availableWidth p = signWidth p - pad p * 2"

definition availableHeight :: "params \<Rightarrow> int" where
  "availableHeight p = signHeight p - pad p * 2"

text \<open>
  The icon item: the spread of \<^verbatim>\<open>params.icon\<close> followed by the two offsets, so the bitmap's
  own \<^verbatim>\<open>offsetY\<close> is replaced.  \<^verbatim>\<open>params.icon!\<close> is read only where \<^verbatim>\<open>hasIcon\<close> holds.
\<close>

definition icon_item :: "params \<Rightarrow> content_item" where
  "icon_item p =
     (let ic = the (icon p);
          offsetX = (if signType p = hanging then hangingSignIconOffsetX p else 0);
          offsetY = (if signType p = standard then signIconOffsetY p else 0)
      in \<lparr>itype = IconItem, iwidth = pwidth ic, iheight = pheight ic, ipixels = pixels ic,
          ioffsetX = offsetX, ioffsetY = offsetY\<rparr>)"

text \<open>\<^verbatim>\<open>Array(n).fill(false)\<close>: a length that is not an unsigned 32-bit integer raises.\<close>

definition Array_fill_false :: "int \<Rightarrow> error + bool list" where
  "Array_fill_false n =
     (if n < 0 \<or> n > 2 ^ 32 - 1 then Inl RangeError else Inr (replicate (nat n) False))"

text \<open>The two inner loops over one line of text.\<close>

definition blit_line :: "int \<Rightarrow> int \<Rightarrow> text_line \<Rightarrow> bool list \<Rightarrow> bool list" where
  "blit_line availWidth currentY line combinedPixels =
     (let xOffset = (availWidth - lwidth line) div 2
      in foldl (\<lambda>acc (y, x).
                  if js_get (lpixels line) (y * lwidth line + x)
                  then js_store_true acc ((currentY + y) * availWidth + (xOffset + x))
                  else acc)
           combinedPixels
           [(y, x). y \<leftarrow> [0 .. lheight line - 1], x \<leftarrow> [0 .. lwidth line - 1]])"

text \<open>The loop over the lines, with the variable \<^verbatim>\<open>currentY\<close>.\<close>

fun blit_lines :: "int \<Rightarrow> text_line list \<Rightarrow> int \<Rightarrow> bool list \<Rightarrow> bool list" where
  "blit_lines availWidth [] currentY combinedPixels = combinedPixels"
| "blit_lines availWidth (line # rest) currentY combinedPixels =
     blit_lines availWidth rest (currentY + lheight line + 1)
       (blit_line availWidth currentY line combinedPixels)"

definition text_item :: "params \<Rightarrow> raster \<Rightarrow> bool list \<Rightarrow> content_item" where
  "text_item p rs combinedPixels =
     (let offsetX = (if signType p = hanging then hangingSignTextOffsetX p else 0);
          offsetY = (if signType p = standard then textOffsetY p else 0)
      in \<lparr>itype = TextItem, iwidth = availableWidth p, iheight = totalHeight rs,
          ipixels = blit_lines (availableWidth p) (lines rs) 0 combinedPixels,
          ioffsetX = offsetX, ioffsetY = offsetY\<rparr>)"

definition hasText :: "params \<Rightarrow> bool" where
  "hasText p \<longleftrightarrow> sign_text p \<noteq> [] \<and> length (trim (sign_text p)) > 0"

text \<open>
  \<^verbatim>\<open>contentItems\<close> after the two pushes and the conditional reverse.  The rasterizer is
  awaited, so its failure ends the flow, as does a bad array length.
\<close>

definition contentItems :: "env \<Rightarrow> params \<Rightarrow> error + content_item list" where
  "contentItems env p =
     (let items1 = (if hasIcon p then [icon_item p] else []);
          reversed = (\<lambda>items. if signType p = hanging \<and> hangingIconPosition p = right
                               then rev items else items)
      in if hasText p
         then (case rasterizePixelText env (toUpperCase env (sign_text p)) (availableWidth p) of
                 Inl e \<Rightarrow> Inl e
               | Inr rs \<Rightarrow>
                   (case Array_fill_false (availableWidth p * totalHeight rs) of
                      Inl e \<Rightarrow> Inl e
                    | Inr combinedPixels \<Rightarrow>
                        Inr (reversed (items1 @ [text_item p rs combinedPixels]))))
         else Inr (reversed items1))"

definition spacing :: int where
  "spacing = 4"

definition voxelDepth :: int where
  "voxelDepth = 15"

definition itemWidth :: "params \<Rightarrow> content_item \<Rightarrow> int" where
  "itemWidth p item =
     (if itype item = TextItem
      then (if hasIcon p \<and> signType p = hanging
            then iwidth item - pwidth (the (icon p)) - spacing else iwidth item)
      else iwidth item)"

definition totalContentWidth :: "params \<Rightarrow> content_item list \<Rightarrow> int" where
  "totalContentWidth p items =
     foldl (\<lambda>sum item. sum + itemWidth p item) 0 items + (if length items > 1 then spacing else 0)"

definition startX :: "params \<Rightarrow> content_item list \<Rightarrow> int" where
  "startX p items = pad p + (availableWidth p - totalContentWidth p items) div 2"

text \<open>Painting one item with the cursor at \<open>currentX\<close>: the two loops over its bitmap.\<close>

definition paint_item :: "params \<Rightarrow> content_item \<Rightarrow> int \<Rightarrow> voxel_call list" where
  "paint_item p item currentX =
     (let itemBaseY = pad p + (availableHeight p - iheight item) div 2;
          finalItemY = itemBaseY + ioffsetY item;
          colorIndex = (if signType p = standard then 2 else 3);
          finalItemX = currentX + ioffsetX item
      in [(x + finalItemX, signHeight p - 1 - (y + finalItemY), voxelDepth, colorIndex).
            y \<leftarrow> [0 .. iheight item - 1],
            x \<leftarrow> [0 .. iwidth item - 1],
            js_get (ipixels item) (y * iwidth item + x)])"

text \<open>The loop over the items, with the variable \<^verbatim>\<open>currentX\<close>; it returns the calls made and
  the cursor after the last item.\<close>

fun place_items :: "params \<Rightarrow> content_item list \<Rightarrow> int \<Rightarrow> voxel_call list \<times> int" where
  "place_items p [] currentX = ([], currentX)"
| "place_items p (item # rest) currentX =
     (case place_items p rest (currentX + (itemWidth p item + spacing)) of
        (cs, finalX) \<Rightarrow> (paint_item p item currentX @ cs, finalX))"

definition content_calls :: "params \<Rightarrow> content_item list \<Rightarrow> voxel_call list" where
  "content_calls p items = fst (place_items p items (startX p items))"

definition anchor_call :: voxel_call where
  "anchor_call = (0, 0, 0, 2)"

text \<open>Every call of \<^verbatim>\<open>addVoxel\<close> that the flow makes, in program order.\<close>

definition voxel_calls :: "env \<Rightarrow> params \<Rightarrow> error + voxel_call list" where
  "voxel_calls env p =
     (case contentItems env p of
        Inl e \<Rightarrow> Inl e
      | Inr items \<Rightarrow> Inr (shape_calls p @ content_calls p items @ [anchor_call]))"

subsection \<open>Encoding and output\<close>

definition xyziValues :: "voxel_map \<Rightarrow> (int \<times> int \<times> int \<times> nat) list" where
  "xyziValues voxelMap = map (\<lambda>((x, y, z), v). (x, y, z, v)) voxelMap"

definition palette :: "rgba list" where
  "palette = (replicate 256 \<lparr>rgba_r = 0, rgba_g = 0, rgba_b = 0, rgba_a = 0\<rparr>)
     [0 := \<lparr>rgba_r = 0, rgba_g = 0, rgba_b = 0, rgba_a = 0\<rparr>,
      1 := \<lparr>rgba_r = 10, rgba_g = 10, rgba_b = 10, rgba_a = 255\<rparr>,
      2 := \<lparr>rgba_r = 200, rgba_g = 164, rgba_b = 100, rgba_a = 255\<rparr>,
      3 := \<lparr>rgba_r = 220, rgba_g = 220, rgba_b = 220, rgba_a = 255\<rparr>]"

definition voxObject :: "params \<Rightarrow> voxel_map \<Rightarrow> vox_object" where
  "voxObject p voxelMap =
     \<lparr>vox_size = (signWidth p, modelDepth, signHeight p),
      xyzi = \<lparr>numVoxels = int (length (xyziValues voxelMap)),
              xyzi_values = map (\<lambda>(x, y, z, i). (x, z, y, i)) (xyziValues voxelMap)\<rparr>,
      rgba_values = palette\<rparr>"

definition createSchematicData :: "string \<Rightarrow> int \<Rightarrow> int \<Rightarrow> int option \<Rightarrow> string" where
  "createSchematicData name w h depth =
     (let depthInfo = (case depth of None \<Rightarrow> [] | Some d \<Rightarrow> if d \<noteq> 0 then ''x'' @ show_int d else [])
      in ''Schematic: '' @ name @ '' ('' @ show_int w @ ''x'' @ show_int h @ depthInfo @ '')'')"

definition generateSignToVoxFlow :: "env \<Rightarrow> params \<Rightarrow> error + sign_to_vox_output" where
  "generateSignToVoxFlow env input =
     (case SignToVoxInputSchema_parse input of
        Inl e \<Rightarrow> Inl e
      | Inr p \<Rightarrow>
          (case voxel_calls env p of
             Inl e \<Rightarrow> Inl e
           | Inr calls \<Rightarrow>
               (let voxelMap = run_calls [] calls;
                    vo = voxObject p voxelMap
                in Inr \<lparr>schematicData =
                          createSchematicData ''VOX Sign'' (signWidth p) (signHeight p) (Some modelDepth),
                        out_width = signWidth p,
                        out_height = signHeight p,
                        out_depth = modelDepth,
                        isVox = True,
                        voxData = base64 env (writeVox env vo),
                        voxSize = vox_size vo,
                        totalVoxels = int (length (xyziValues voxelMap)) - 1\<rparr>)))"

subsection \<open>The two shapes in the words of the specification\<close>

text \<open>
  These definitions follow the prose of the specification, not the code; the theorems
  below compare them with \<open>isInside\<close> and \<open>isFrame\<close>.  The Euclidean distance is taken
  from the centre of the cell \<open>(x, y)\<close> to the point \<open>(cx, cy)\<close>.
\<close>

definition spec_distance :: "int \<Rightarrow> int \<Rightarrow> int \<Rightarrow> int \<Rightarrow> real" where
  "spec_distance x y cx cy =
     sqrt ((of_int x + 1/2 - of_int cx)\<^sup>2 + (of_int y + 1/2 - of_int cy)\<^sup>2)"

text \<open>
  The cross-section of the hanging backplate: ``the cell lies in the rectangle's non-corner
  bands or within \<open>cornerRadius = 4\<close> of any of the four corner centers''.
\<close>

definition spec_rounded_rectangle :: "int \<Rightarrow> int \<Rightarrow> int \<Rightarrow> int \<Rightarrow> bool" where
  "spec_rounded_rectangle W H x y \<longleftrightarrow>
     (4 \<le> x \<and> x < W - 4) \<or> (4 \<le> y \<and> y < H - 4)
     \<or> spec_distance x y 4 4 \<le> 4
     \<or> spec_distance x y (W - 4) 4 \<le> 4
     \<or> spec_distance x y 4 (H - 4) \<le> 4
     \<or> spec_distance x y (W - 4) (H - 4) \<le> 4"

text \<open>
  The cut-out of the frame: ``the cell lies inside the corner's bounding square of side
  \<open>cornerRadius\<close> and its Euclidean distance from the corner's rounding center exceeds
  \<open>cornerRadius\<close>'', for each of the four corners of the \<open>W\<close> by \<open>H\<close> plane.  The rounding
  centers are the ones the code passes to \<^verbatim>\<open>checkCorner\<close>.
\<close>

definition spec_corner_cutout :: "int \<Rightarrow> int \<Rightarrow> int \<Rightarrow> int \<Rightarrow> int \<Rightarrow> bool" where
  "spec_corner_cutout W H cr x y \<longleftrightarrow>
     (0 \<le> x \<and> x < cr \<and> 0 \<le> y \<and> y < cr
        \<and> spec_distance x y cr cr > of_int cr)
     \<or> (W - cr \<le> x \<and> x < W \<and> 0 \<le> y \<and> y < cr
        \<and> spec_distance x y (W - 1 - cr) cr > of_int cr)
     \<or> (0 \<le> x \<and> x < cr \<and> H - cr \<le> y \<and> y < H
        \<and> spec_distance x y cr (H - 1 - cr) > of_int cr)
     \<or> (W - cr \<le> x \<and> x < W \<and> H - cr \<le> y \<and> y < H
        \<and> spec_distance x y (W - 1 - cr) (H - 1 - cr) > of_int cr)"

subsection \<open>Inputs that the flow cannot tell apart\<close>

text \<open>
  Two inputs agree when they have the same value in every field except
  \<^verbatim>\<open>signIconScale\<close>, except the two vertical offsets on a hanging sign, and except the two
  horizontal offsets on a standard sign.
\<close>

definition agree :: "params \<Rightarrow> params \<Rightarrow> bool" where
  "agree p q \<longleftrightarrow>
     signType q = signType p \<and> width q = width p \<and> height q = height p \<and> frame q = frame p
     \<and> frameWidth q = frameWidth p \<and> hangingWidth q = hangingWidth p
     \<and> hangingIconPosition q = hangingIconPosition p
     \<and> hangingSignThickness q = hangingSignThickness p
     \<and> icon q = icon p \<and> sign_text q = sign_text p \<and> signWithIcon q = signWithIcon p
     \<and> (signType p = hanging \<or>
          signIconOffsetY q = signIconOffsetY p \<and> textOffsetY q = textOffsetY p)
     \<and> (signType p = standard \<or>
          hangingSignIconOffsetX q = hangingSignIconOffsetX p
          \<and> hangingSignTextOffsetX q = hangingSignTextOffsetX p)"

subsection \<open>Example inputs\<close>

text \<open>
  A stand-in for the imported functions: the rasterizer returns one line of two by two
  pixels whatever the text, and the writer lists the palette indices of the records.
\<close>

definition example_env :: env where
  "example_env =
     \<lparr>toUpperCase = (\<lambda>s. s),
      rasterizePixelText = (\<lambda>s w. Inr \<lparr>lines = [\<lparr>lwidth = 2, lheight = 2,
                                                   lpixels = [True, False, True, True]\<rparr>],
                                         totalHeight = 2\<rparr>),
      writeVox = (\<lambda>vo. map (\<lambda>(x, y, z, i). i) (xyzi_values (xyzi vo))),
      base64 = map char_of\<rparr>"

definition example_icon :: pixel_data where
  "example_icon = \<lparr>pixels = [True, True, False, True], pwidth = 2, pheight = 2, poffsetY = None\<rparr>"

text \<open>A standard sign without frame, with an icon and no text.\<close>

definition example_plain :: params where
  "example_plain =
     \<lparr>signType = standard, width = 16, height = 16, frame = False, frameWidth = 1,
      hangingWidth = 48, hangingIconPosition = left, hangingSignThickness = 1,
      hangingSignIconOffsetX = 0, hangingSignTextOffsetX = 0,
      icon = Some example_icon, sign_text = [], signIconScale = 50,
      signIconOffsetY = 0, textOffsetY = 0, signWithIcon = True\<rparr>"

definition example_plain_out :: sign_to_vox_output where
  "example_plain_out =
     \<lparr>schematicData = ''Schematic: VOX Sign (16x16x32)'', out_width = 16, out_height = 16,
      out_depth = 32, isVox = True, voxData = [CHR 0x02, CHR 0x02, CHR 0x02, CHR 0x02],
      voxSize = (16, 32, 16), totalVoxels = 3\<rparr>"

text \<open>A hanging sign with the icon on the right, an icon and a text.\<close>

definition example_hanging :: params where
  "example_hanging =
     \<lparr>signType = hanging, width = 16, height = 16, frame = True, frameWidth = 1,
      hangingWidth = 48, hangingIconPosition = right, hangingSignThickness = 2,
      hangingSignIconOffsetX = 1, hangingSignTextOffsetX = - 1,
      icon = Some example_icon, sign_text = [72, 73], signIconScale = 50,
      signIconOffsetY = 3, textOffsetY = 5, signWithIcon = True\<rparr>"

text \<open>A framed standard sign of 48 by 40 with frame width 2, without icon and without text.\<close>

definition example_framed :: params where
  "example_framed =
     \<lparr>signType = standard, width = 48, height = 40, frame = True, frameWidth = 2,
      hangingWidth = 64, hangingIconPosition = left, hangingSignThickness = 1,
      hangingSignIconOffsetX = 0, hangingSignTextOffsetX = 0,
      icon = None, sign_text = [], signIconScale = 50,
      signIconOffsetY = 0, textOffsetY = 0, signWithIcon = False\<rparr>"

section \<open>Properties\<close>

subsection \<open>The voxel map as a function of the calls\<close>

lemma toInt32_id: "- (2 ^ 31) \<le> n \<Longrightarrow> n < 2 ^ 31 \<Longrightarrow> toInt32 n = n"
  by (simp add: toInt32_def sint_sbintrunc' signed_take_bit_int_eq_self)

lemma toInt32_0: "toInt32 0 = 0"
  by (simp add: toInt32_def)

text \<open>Below \<open>2\<^sup>3\<^sup>1\<close> in absolute value the key of a call is the triple of its coordinates.\<close>

lemma voxel_key_id:
  "- (2 ^ 31) \<le> px \<Longrightarrow> px < 2 ^ 31 \<Longrightarrow> - (2 ^ 31) \<le> py \<Longrightarrow> py < 2 ^ 31 \<Longrightarrow>
   - (2 ^ 31) \<le> pz \<Longrightarrow> pz < 2 ^ 31 \<Longrightarrow> voxel_key px py pz = (px, py, pz)"
  by (simp add: voxel_key_def toInt32_id)

lemma run_calls_Nil: "run_calls m [] = m"
  by (simp add: run_calls_def)

lemma run_calls_Cons: "run_calls m (c # cs) = run_calls (addVoxel m c) cs"
  by (simp add: run_calls_def)

lemma run_calls_append: "run_calls m (cs @ ds) = run_calls (run_calls m cs) ds"
  by (simp add: run_calls_def)

lemma map_of_addVoxel: "map_of (addVoxel m c) = (map_of m)(call_key c \<mapsto> call_color c)"
  by (cases c) (simp add: addVoxel_def call_key_def call_color_def update_conv')

lemma distinct_addVoxel: "distinct (map fst m) \<Longrightarrow> distinct (map fst (addVoxel m c))"
  by (cases c) (simp add: addVoxel_def distinct_update)

lemma distinct_run_calls: "distinct (map fst m) \<Longrightarrow> distinct (map fst (run_calls m cs))"
  by (induction cs arbitrary: m) (simp_all add: run_calls_Nil run_calls_Cons distinct_addVoxel)

lemma map_of_run_calls_snoc:
  "map_of (run_calls m (cs @ [c])) = (map_of (run_calls m cs))(call_key c \<mapsto> call_color c)"
  by (simp add: run_calls_append run_calls_Cons run_calls_Nil map_of_addVoxel)

lemma map_of_run_calls_miss:
  "\<forall>c \<in> set cs. call_key c \<noteq> k \<Longrightarrow> map_of (run_calls m cs) k = map_of m k"
  by (induction cs arbitrary: m) (auto simp: run_calls_Nil run_calls_Cons map_of_addVoxel)

lemma map_of_run_calls_last:
  "\<forall>d \<in> set ds. call_key d \<noteq> call_key c \<Longrightarrow>
   map_of (run_calls m (cs @ [c] @ ds)) (call_key c) = Some (call_color c)"
  by (simp add: run_calls_append run_calls_Cons map_of_run_calls_miss map_of_addVoxel)

lemma keys_run_calls: "fst ` set (run_calls m cs) = fst ` set m \<union> call_key ` set cs"
proof (induction cs arbitrary: m)
  case Nil
  show ?case by (simp add: run_calls_Nil)
next
  case (Cons c cs)
  have "fst ` set (addVoxel m c) = insert (call_key c) (fst ` set m)"
    by (cases c) (simp add: addVoxel_def call_key_def dom_update)
  with Cons show ?case by (auto simp: run_calls_Cons)
qed

lemma length_voxel_map: "distinct (map fst m) \<Longrightarrow> length m = card (dom (map_of m))"
  by (metis distinct_card dom_map_of_conv_image_fst length_map list.set_map)

lemma filter_key_none: "k \<notin> fst ` set m \<Longrightarrow> filter (\<lambda>e. fst e = k) m = []"
  by (induction m) auto

lemma one_entry_per_key:
  "distinct (map fst m) \<Longrightarrow> k \<in> fst ` set m \<Longrightarrow> length (filter (\<lambda>e. fst e = k) m) = 1"
  by (induction m) (auto simp: filter_key_none)

lemma anchor_key: "call_key anchor_call = (0, 0, 0)"
  by (simp add: anchor_call_def call_key_def voxel_key_def toInt32_0)

subsection \<open>What a returning flow has done\<close>

lemma flow_Inr_D:
  assumes "generateSignToVoxFlow env input = Inr out"
  obtains items where
    "SignToVoxInputSchema_parse input = Inr input"
    "contentItems env input = Inr items"
    "voxel_calls env input = Inr (shape_calls input @ content_calls input items @ [anchor_call])"
    "out_width out = signWidth input"
    "out_height out = signHeight input"
    "out_depth out = modelDepth"
    "voxSize out = (signWidth input, modelDepth, signHeight input)"
    "voxData out = base64 env (writeVox env (voxObject input
        (run_calls [] (shape_calls input @ content_calls input items @ [anchor_call]))))"
    "totalVoxels out
       = int (length (run_calls [] (shape_calls input @ content_calls input items @ [anchor_call]))) - 1"
proof -
  from assms have v: "SignToVoxInputSchema_parse input = Inr input"
    by (auto simp: generateSignToVoxFlow_def SignToVoxInputSchema_parse_def split: if_splits)
  from assms v obtain calls where c: "voxel_calls env input = Inr calls"
    by (auto simp: generateSignToVoxFlow_def split: sum.splits)
  then obtain items where i: "contentItems env input = Inr items"
    and cs: "calls = shape_calls input @ content_calls input items @ [anchor_call]"
    by (auto simp: voxel_calls_def split: sum.splits)
  from assms v c have o: "out = \<lparr>schematicData =
              createSchematicData ''VOX Sign'' (signWidth input) (signHeight input) (Some modelDepth),
            out_width = signWidth input, out_height = signHeight input, out_depth = modelDepth,
            isVox = True,
            voxData = base64 env (writeVox env (voxObject input (run_calls [] calls))),
            voxSize = vox_size (voxObject input (run_calls [] calls)),
            totalVoxels = int (length (xyziValues (run_calls [] calls))) - 1\<rparr>"
    by (simp add: generateSignToVoxFlow_def Let_def)
  show thesis
  proof (rule that [of items])
    show "SignToVoxInputSchema_parse input = Inr input" by (rule v)
    show "contentItems env input = Inr items" by (rule i)
    show "voxel_calls env input = Inr (shape_calls input @ content_calls input items @ [anchor_call])"
      using c cs by simp
    show "out_width out = signWidth input" by (simp add: o)
    show "out_height out = signHeight input" by (simp add: o)
    show "out_depth out = modelDepth" by (simp add: o)
    show "voxSize out = (signWidth input, modelDepth, signHeight input)"
      by (simp add: o voxObject_def)
    show "voxData out = base64 env (writeVox env (voxObject input
        (run_calls [] (shape_calls input @ content_calls input items @ [anchor_call]))))"
      by (simp add: o cs)
    show "totalVoxels out
       = int (length (run_calls [] (shape_calls input @ content_calls input items @ [anchor_call]))) - 1"
      by (simp add: o cs xyziValues_def)
  qed
qed

lemma flow_returns:
  assumes "SignToVoxInputSchema_parse input = Inr input" and "contentItems env input = Inr items"
  shows "\<exists>out. generateSignToVoxFlow env input = Inr out"
  using assms by (simp add: generateSignToVoxFlow_def voxel_calls_def Let_def)

lemma contentItems_without_text:
  "\<not> hasText p \<Longrightarrow> \<exists>items. contentItems env p = Inr items"
  by (simp add: contentItems_def Let_def)

lemma flow_raises_iff:
  "generateSignToVoxFlow env input = Inl e \<longleftrightarrow>
     SignToVoxInputSchema_parse input = Inl e
     \<or> (SignToVoxInputSchema_parse input = Inr input \<and> contentItems env input = Inl e)"
  by (auto simp: generateSignToVoxFlow_def SignToVoxInputSchema_parse_def voxel_calls_def Let_def
      split: sum.splits if_splits)

lemma example_hanging_valid: "SignToVoxInputSchema_parse example_hanging = Inr example_hanging"
  by (simp add: SignToVoxInputSchema_parse_def example_hanging_def)

lemma example_hanging_items:
  "\<exists>items. contentItems example_env example_hanging = Inr items
     \<and> map itype items = [TextItem, IconItem]"
  by (simp add: contentItems_def example_env_def example_hanging_def hasText_def trim_def
      isWhiteSpace_def Array_fill_false_def availableWidth_def signWidth_def pad_def hasIcon_def
      example_icon_def text_item_def icon_item_def Let_def)

lemma example_hanging_returns: "\<exists>out. generateSignToVoxFlow example_env example_hanging = Inr out"
proof -
  from example_hanging_items obtain items where "contentItems example_env example_hanging = Inr items"
    by blast
  with example_hanging_valid show ?thesis by (rule flow_returns)
qed

lemma example_plain_returns: "generateSignToVoxFlow example_env example_plain = Inr example_plain_out"
  by code_simp

lemma call_key_tuple: "call_key (x, y, z, i) = voxel_key x y z"
  by (simp add: call_key_def)

lemma call_color_tuple: "call_color (x, y, z, i) = i"
  by (simp add: call_color_def)

lemma example_plain_content:
  "contentItems example_env example_plain = Inr [icon_item example_plain]
   \<and> content_calls example_plain [icon_item example_plain]
       = [(7, 8, 15, 2), (8, 8, 15, 2), (8, 7, 15, 2)]"
  by code_simp

subsection \<open>The anchor\<close>

text \<open>
  Claim C1.  Whenever the flow returns, the calls of \<^verbatim>\<open>addVoxel\<close> it has made are the shape
  calls, then the content calls, then one call \<open>(0, 0, 0, 2)\<close>, which is the last call of
  all.  The final map therefore holds palette index 2 at the key \<open>(0, 0, 0)\<close>, in exactly
  one entry.  (A flow that does not return has raised: a rejected input, a failure of the
  rasterizer or a bad array length; it yields no map at all.)
\<close>

theorem anchor_written_last:
  assumes "generateSignToVoxFlow env input = Inr out"
  shows "\<exists>items. contentItems env input = Inr items
           \<and> voxel_calls env input
               = Inr ((shape_calls input @ content_calls input items) @ [(0, 0, 0, 2)])
           \<and> map_of (run_calls [] ((shape_calls input @ content_calls input items) @ [(0, 0, 0, 2)]))
               (0, 0, 0) = Some 2
           \<and> length (filter (\<lambda>e. fst e = (0, 0, 0))
                 (run_calls [] ((shape_calls input @ content_calls input items) @ [(0, 0, 0, 2)]))) = 1"
proof -
  from assms obtain items where i: "contentItems env input = Inr items"
    and c: "voxel_calls env input = Inr (shape_calls input @ content_calls input items @ [anchor_call])"
    by (rule flow_Inr_D)
  let ?ws = "shape_calls input @ content_calls input items"
  let ?m = "run_calls [] (?ws @ [(0, 0, 0, 2)])"
  have m: "map_of ?m (0, 0, 0) = Some 2"
    using map_of_run_calls_snoc [of "[]" ?ws anchor_call]
    by (simp add: anchor_key) (simp add: anchor_call_def call_color_def)
  have d: "distinct (map fst ?m)"
    by (rule distinct_run_calls) simp
  have "(0, 0, 0) \<in> fst ` set ?m"
    using m by (metis domI dom_map_of_conv_image_fst)
  with d have "length (filter (\<lambda>e. fst e = (0, 0, 0)) ?m) = 1"
    by (rule one_entry_per_key)
  with i c m show ?thesis by (auto simp: anchor_call_def)
qed

theorem anchor_written_last_witness:
  "generateSignToVoxFlow example_env example_plain = Inr example_plain_out
   \<and> (\<exists>items. contentItems example_env example_plain = Inr items
        \<and> voxel_calls example_env example_plain
            = Inr ((shape_calls example_plain @ content_calls example_plain items) @ [(0, 0, 0, 2)])
        \<and> map_of (run_calls [] ((shape_calls example_plain @ content_calls example_plain items)
                                  @ [(0, 0, 0, 2)])) (0, 0, 0) = Some 2
        \<and> length (filter (\<lambda>e. fst e = (0, 0, 0))
              (run_calls [] ((shape_calls example_plain @ content_calls example_plain items)
                              @ [(0, 0, 0, 2)]))) = 1)"
  using anchor_written_last [OF example_plain_returns] example_plain_returns by simp

subsection \<open>The reported count\<close>

text \<open>
  Claim C2.  Whenever the flow returns, \<^verbatim>\<open>totalVoxels\<close> is the number of distinct keys of the
  final map minus one, and the object handed to \<^verbatim>\<open>writeVox\<close> (whose encoding is the returned
  payload) carries \<open>totalVoxels + 1\<close> both as its \<^verbatim>\<open>numVoxels\<close> and as the number of its
  records.
\<close>

theorem total_voxels_count:
  assumes "generateSignToVoxFlow env input = Inr out"
  shows "\<exists>calls. voxel_calls env input = Inr calls
           \<and> totalVoxels out = int (card (dom (map_of (run_calls [] calls)))) - 1
           \<and> voxData out = base64 env (writeVox env (voxObject input (run_calls [] calls)))
           \<and> numVoxels (xyzi (voxObject input (run_calls [] calls))) = totalVoxels out + 1
           \<and> int (length (xyzi_values (xyzi (voxObject input (run_calls [] calls)))))
               = totalVoxels out + 1"
proof -
  let ?cs = "\<lambda>items. shape_calls input @ content_calls input items @ [anchor_call]"
  from assms obtain items where c: "voxel_calls env input = Inr (?cs items)"
    and d: "voxData out = base64 env (writeVox env (voxObject input (run_calls [] (?cs items))))"
    and t: "totalVoxels out = int (length (run_calls [] (?cs items))) - 1"
    by (rule flow_Inr_D)
  have "distinct (map fst (run_calls [] (?cs items)))"
    by (rule distinct_run_calls) simp
  then have "length (run_calls [] (?cs items)) = card (dom (map_of (run_calls [] (?cs items))))"
    by (rule length_voxel_map)
  with c d t show ?thesis
    by (simp add: xyziValues_def voxObject_def)
qed

theorem total_voxels_count_witness:
  "\<exists>calls. voxel_calls example_env example_plain = Inr calls
     \<and> totalVoxels example_plain_out = int (card (dom (map_of (run_calls [] calls)))) - 1
     \<and> voxData example_plain_out
         = base64 example_env (writeVox example_env (voxObject example_plain (run_calls [] calls)))
     \<and> numVoxels (xyzi (voxObject example_plain (run_calls [] calls))) = 4
     \<and> int (length (xyzi_values (xyzi (voxObject example_plain (run_calls [] calls))))) = 4"
  using total_voxels_count [OF example_plain_returns] by (simp add: example_plain_out_def)

subsection \<open>The encoder\<close>

text \<open>
  Claim C7.  Whenever the flow returns, the records of the object handed to \<^verbatim>\<open>writeVox\<close> are
  the entries of the final map in their order, each entry \<open>((x, y, z), i)\<close> turned into
  \<open>(x, z, y, i)\<close>; the size of the object, which is also the reported \<^verbatim>\<open>voxSize\<close>, is the
  reported width, depth and height in that order.
\<close>

theorem encoder_swaps_axes:
  assumes "generateSignToVoxFlow env input = Inr out"
  shows "\<exists>calls. voxel_calls env input = Inr calls
           \<and> voxData out = base64 env (writeVox env (voxObject input (run_calls [] calls)))
           \<and> xyzi_values (xyzi (voxObject input (run_calls [] calls)))
               = map (\<lambda>((x, y, z), i). (x, z, y, i)) (run_calls [] calls)
           \<and> vox_size (voxObject input (run_calls [] calls))
               = (out_width out, out_depth out, out_height out)
           \<and> voxSize out = (out_width out, out_depth out, out_height out)"
proof -
  let ?cs = "\<lambda>items. shape_calls input @ content_calls input items @ [anchor_call]"
  from assms obtain items where c: "voxel_calls env input = Inr (?cs items)"
    and d: "voxData out = base64 env (writeVox env (voxObject input (run_calls [] (?cs items))))"
    and w: "out_width out = signWidth input" and h: "out_height out = signHeight input"
    and z: "out_depth out = modelDepth"
    and s: "voxSize out = (signWidth input, modelDepth, signHeight input)"
    by (rule flow_Inr_D)
  have "map (\<lambda>(x, y, z, i). (x, z, y, i)) (xyziValues m) = map (\<lambda>((x, y, z), i). (x, z, y, i)) m"
    for m :: voxel_map
    by (simp add: xyziValues_def split_def)
  with c d w h z s show ?thesis
    by (simp add: voxObject_def)
qed

theorem encoder_swaps_axes_witness:
  "\<exists>calls. voxel_calls example_env example_plain = Inr calls
     \<and> voxData example_plain_out
         = base64 example_env (writeVox example_env (voxObject example_plain (run_calls [] calls)))
     \<and> xyzi_values (xyzi (voxObject example_plain (run_calls [] calls)))
         = map (\<lambda>((x, y, z), i). (x, z, y, i)) (run_calls [] calls)
     \<and> vox_size (voxObject example_plain (run_calls [] calls)) = (16, 32, 16)
     \<and> voxSize example_plain_out = (16, 32, 16)"
  using encoder_swaps_axes [OF example_plain_returns] by (simp add: example_plain_out_def)

subsection \<open>The reported dimensions\<close>

text \<open>
  Claim C9.  Whenever the flow returns, the reported depth is 32, the size triple is the
  reported width, 32 and the reported height; for a hanging sign the width is
  \<^verbatim>\<open>hangingWidth\<close> and the height is 16, for a standard sign they are the fields
  \<^verbatim>\<open>width\<close> and \<^verbatim>\<open>height\<close>.
\<close>

theorem reported_dimensions:
  assumes "generateSignToVoxFlow env input = Inr out"
  shows "out_depth out = 32
         \<and> voxSize out = (out_width out, 32, out_height out)
         \<and> (signType input = hanging \<longrightarrow>
               out_width out = hangingWidth input \<and> out_height out = 16)
         \<and> (signType input = standard \<longrightarrow>
               out_width out = width input \<and> out_height out = height input)"
proof -
  from assms obtain items where "out_width out = signWidth input"
    and "out_height out = signHeight input" and "out_depth out = modelDepth"
    and "voxSize out = (signWidth input, modelDepth, signHeight input)"
    by (rule flow_Inr_D)
  then show ?thesis
    by (simp add: modelDepth_def signWidth_def signHeight_def)
qed

theorem reported_dimensions_witness:
  "(\<exists>out. generateSignToVoxFlow example_env example_hanging = Inr out
      \<and> out_depth out = 32 \<and> voxSize out = (48, 32, 16)
      \<and> out_width out = 48 \<and> out_height out = 16)
   \<and> out_depth example_plain_out = 32 \<and> voxSize example_plain_out = (16, 32, 16)
   \<and> out_width example_plain_out = 16 \<and> out_height example_plain_out = 16"
proof -
  from example_hanging_returns obtain out
    where r: "generateSignToVoxFlow example_env example_hanging = Inr out" ..
  from reported_dimensions [OF r] have "out_depth out = 32 \<and> voxSize out = (48, 32, 16)
      \<and> out_width out = 48 \<and> out_height out = 16"
    by (simp add: example_hanging_def)
  with r have "\<exists>out. generateSignToVoxFlow example_env example_hanging = Inr out
      \<and> out_depth out = 32 \<and> voxSize out = (48, 32, 16)
      \<and> out_width out = 48 \<and> out_height out = 16"
    by blast
  moreover from reported_dimensions [OF example_plain_returns]
  have "out_depth example_plain_out = 32 \<and> voxSize example_plain_out = (16, 32, 16)
      \<and> out_width example_plain_out = 16 \<and> out_height example_plain_out = 16"
    by (simp add: example_plain_def)
  ultimately show ?thesis by simp
qed

subsection \<open>Overwriting\<close>

text \<open>
  Claim C6.  Run any sequence of calls in which a coordinate is written with index \<open>i\<close> and
  later with index \<open>j\<close>, with any calls before, between and after, none of the calls after
  going to that coordinate: the map then holds \<open>j\<close> there, in a single entry.  In the flow
  the shape calls come before the content calls, so a coordinate other than the anchor's
  that a content call writes, and no later content call writes, ends with the index of
  that content call, whatever the shape wrote there.
\<close>

theorem last_write_wins:
  "(distinct (map fst m) \<and> (\<forall>d \<in> set ds. call_key d \<noteq> voxel_key x y z) \<longrightarrow>
      map_of (run_calls m (cs @ [(x, y, z, i)] @ bs @ [(x, y, z, j)] @ ds)) (voxel_key x y z) = Some j
      \<and> length (filter (\<lambda>e. fst e = voxel_key x y z)
           (run_calls m (cs @ [(x, y, z, i)] @ bs @ [(x, y, z, j)] @ ds))) = 1)
   \<and> (contentItems env input = Inr items \<and> content_calls input items = cs1 @ [c] @ cs2
        \<and> (\<forall>d \<in> set cs2. call_key d \<noteq> call_key c) \<and> call_key c \<noteq> (0, 0, 0) \<longrightarrow>
      (\<exists>calls. voxel_calls env input = Inr calls
         \<and> map_of (run_calls [] calls) (call_key c) = Some (call_color c)))"
proof (intro conjI impI)
  assume a: "distinct (map fst m) \<and> (\<forall>d \<in> set ds. call_key d \<noteq> voxel_key x y z)"
  let ?all = "cs @ [(x, y, z, i)] @ bs @ [(x, y, z, j)] @ ds"
  from a have "\<forall>d \<in> set ds. call_key d \<noteq> call_key (x, y, z, j)"
    by (simp add: call_key_tuple)
  then have "map_of (run_calls m ((cs @ [(x, y, z, i)] @ bs) @ [(x, y, z, j)] @ ds))
      (call_key (x, y, z, j)) = Some (call_color (x, y, z, j))"
    by (rule map_of_run_calls_last)
  then show v: "map_of (run_calls m ?all) (voxel_key x y z) = Some j"
    by (simp add: call_key_tuple call_color_tuple)
  from a have "distinct (map fst (run_calls m ?all))"
    by (simp add: distinct_run_calls)
  moreover from v have "voxel_key x y z \<in> fst ` set (run_calls m ?all)"
    by (metis domI dom_map_of_conv_image_fst)
  ultimately show "length (filter (\<lambda>e. fst e = voxel_key x y z) (run_calls m ?all)) = 1"
    by (rule one_entry_per_key)
next
  assume a: "contentItems env input = Inr items \<and> content_calls input items = cs1 @ [c] @ cs2
        \<and> (\<forall>d \<in> set cs2. call_key d \<noteq> call_key c) \<and> call_key c \<noteq> (0, 0, 0)"
  then have calls: "voxel_calls env input = Inr ((shape_calls input @ cs1) @ [c] @ (cs2 @ [anchor_call]))"
    by (simp add: voxel_calls_def)
  from a have "\<forall>d \<in> set (cs2 @ [anchor_call]). call_key d \<noteq> call_key c"
    by (auto simp: anchor_key)
  then have "map_of (run_calls [] ((shape_calls input @ cs1) @ [c] @ (cs2 @ [anchor_call]))) (call_key c)
      = Some (call_color c)"
    by (rule map_of_run_calls_last)
  with calls show "\<exists>calls. voxel_calls env input = Inr calls
         \<and> map_of (run_calls [] calls) (call_key c) = Some (call_color c)"
    by blast
qed

theorem last_write_wins_witness:
  "map_of (run_calls [] ([] @ [(1, 2, 3, 1)] @ [(0, 0, 0, 2)] @ [(1, 2, 3, 3)] @ [(4, 5, 6, 1)]))
      (voxel_key 1 2 3) = Some 3
   \<and> length (filter (\<lambda>e. fst e = voxel_key 1 2 3)
        (run_calls [] ([] @ [(1, 2, 3, 1)] @ [(0, 0, 0, 2)] @ [(1, 2, 3, 3)] @ [(4, 5, 6, 1)]))) = 1
   \<and> (\<exists>calls. voxel_calls example_env example_plain = Inr calls
        \<and> map_of (run_calls [] calls) (call_key (8, 8, 15, 2)) = Some 2)"
proof -
  have k: "voxel_key 4 5 6 \<noteq> voxel_key 1 2 3"
    by (simp add: voxel_key_def toInt32_id)
  have c: "call_key (8, 7, 15, 2) \<noteq> call_key (8, 8, 15, 2)" "call_key (8, 8, 15, 2) \<noteq> (0, 0, 0)"
    by (simp_all add: call_key_def voxel_key_def toInt32_id)
  from last_write_wins [of "[]" "[(4, 5, 6, 1)]" 1 2 3 "[]" 1 "[(0, 0, 0, 2)]" 3
      example_env example_plain "[icon_item example_plain]" "[(7, 8, 15, 2)]" "(8, 8, 15, 2)"
      "[(8, 7, 15, 2)]"] k c example_plain_content
  show ?thesis
    by (simp add: call_key_tuple call_color_tuple)
qed

subsection \<open>The hanging backplate\<close>

lemma set_backplate_calls:
  "set (backplate_calls p) =
     {(x, y, z, 1) | x y z. 16 \<le> z \<and> z < 16 + hangingSignThickness p
         \<and> 0 \<le> x \<and> x < signWidth p \<and> 0 \<le> y \<and> y < signHeight p \<and> isInside p x y}"
proof -
  have "c \<in> set (backplate_calls p) \<longleftrightarrow>
      c \<in> {(x, y, z, 1) | x y z. 16 \<le> z \<and> z < 16 + hangingSignThickness p
         \<and> 0 \<le> x \<and> x < signWidth p \<and> 0 \<le> y \<and> y < signHeight p \<and> isInside p x y}" for c
  proof
    assume "c \<in> set (backplate_calls p)"
    then obtain x y z where "c = (x, y, zStart + z, 1)" "0 \<le> z" "z < hangingSignThickness p"
      "0 \<le> x" "x < signWidth p" "0 \<le> y" "y < signHeight p" "isInside p x y"
      by (auto simp: backplate_calls_def)
    then show "c \<in> {(x, y, z, 1) | x y z. 16 \<le> z \<and> z < 16 + hangingSignThickness p
         \<and> 0 \<le> x \<and> x < signWidth p \<and> 0 \<le> y \<and> y < signHeight p \<and> isInside p x y}"
      by (simp add: zStart_def)
  next
    assume "c \<in> {(x, y, z, 1) | x y z. 16 \<le> z \<and> z < 16 + hangingSignThickness p
         \<and> 0 \<le> x \<and> x < signWidth p \<and> 0 \<le> y \<and> y < signHeight p \<and> isInside p x y}"
    then obtain x y z where c: "c = (x, y, z, 1)" and z: "16 \<le> z" "z < 16 + hangingSignThickness p"
      and r: "0 \<le> x" "x < signWidth p" "0 \<le> y" "y < signHeight p" "isInside p x y"
      by auto
    from z have "z - 16 \<in> set [0 .. hangingSignThickness p - 1]" by simp
    moreover have "c = (x, y, zStart + (z - 16), 1)" by (simp add: c zStart_def)
    ultimately show "c \<in> set (backplate_calls p)"
      using r by (auto simp: backplate_calls_def)
  qed
  then show ?thesis by blast
qed

lemma spec_distance_rat:
  "spec_distance x y cx cy
     = sqrt (of_rat ((of_int (x - cx) + 1/2)\<^sup>2 + (of_int (y - cy) + 1/2)\<^sup>2))"
  by (simp add: spec_distance_def of_rat_add of_rat_diff of_rat_power of_rat_divide of_rat_of_int_eq algebra_simps)

lemma spec_distance_le:
  "0 \<le> cr \<Longrightarrow> spec_distance x y cx cy \<le> of_int cr \<longleftrightarrow>
     (of_int (x - cx) + 1/2 :: rat)\<^sup>2 + (of_int (y - cy) + 1/2)\<^sup>2 \<le> (of_int cr)\<^sup>2"
proof -
  assume r: "0 \<le> cr"
  let ?q = "(of_int (x - cx) + 1/2 :: rat)\<^sup>2 + (of_int (y - cy) + 1/2)\<^sup>2"
  have "spec_distance x y cx cy \<le> of_int cr \<longleftrightarrow> sqrt (of_rat ?q) \<le> sqrt ((of_int cr)\<^sup>2)"
    using r by (simp add: spec_distance_rat)
  also have "\<dots> \<longleftrightarrow> (of_rat ?q :: real) \<le> (of_int cr)\<^sup>2"
    by (rule real_sqrt_le_iff)
  also have "\<dots> \<longleftrightarrow> (of_rat ?q :: real) \<le> of_rat ((of_int cr)\<^sup>2)"
    by (simp add: of_rat_power)
  also have "\<dots> \<longleftrightarrow> ?q \<le> (of_int cr)\<^sup>2"
    by (rule of_rat_less_eq)
  finally show ?thesis .
qed

lemma spec_distance_gt:
  "0 \<le> cr \<Longrightarrow> spec_distance x y cx cy > of_int cr \<longleftrightarrow>
     (of_int (x - cx) + 1/2 :: rat)\<^sup>2 + (of_int (y - cy) + 1/2)\<^sup>2 > (of_int cr)\<^sup>2"
  using spec_distance_le [of cr x y cx cy] by (simp add: not_le [symmetric])

lemma isInside_spec: "isInside p x y \<longleftrightarrow> spec_rounded_rectangle (signWidth p) (signHeight p) x y"
proof -
  have "spec_distance x y cx cy \<le> 4 \<longleftrightarrow>
     (of_int x + 1/2 - of_int cx :: rat)\<^sup>2 + (of_int y + 1/2 - of_int cy)\<^sup>2 \<le> 4\<^sup>2" for cx cy
    using spec_distance_le [of 4 x y cx cy] by (simp add: algebra_simps)
  then show ?thesis
    by (simp add: isInside_def spec_rounded_rectangle_def Let_def)
qed

text \<open>
  Claim C5.  For a hanging sign every shape call is a backplate call, and the backplate
  calls are exactly the calls \<open>(x, y, z, 1)\<close> with \<open>z\<close> in \<open>[16, 16 + thickness)\<close> and \<open>(x, y)\<close>
  a cell of the \<open>hangingWidth\<close> by 16 plane that lies in one of the two bands or within
  distance 4 of one of the four corner centers: the same cross-section for every \<open>z\<close>.
  (A write is a call of \<^verbatim>\<open>addVoxel\<close>; by \<open>voxel_key_id\<close> the key it stores under is the
  triple itself as long as the coordinates are below \<open>2\<^sup>3\<^sup>1\<close>.)
\<close>

theorem backplate_cross_section:
  assumes "signType p = hanging"
  shows "shape_calls p = backplate_calls p
         \<and> set (shape_calls p)
             = {(x, y, z, 1) | x y z. 16 \<le> z \<and> z < 16 + hangingSignThickness p
                  \<and> 0 \<le> x \<and> x < hangingWidth p \<and> 0 \<le> y \<and> y < 16
                  \<and> spec_rounded_rectangle (hangingWidth p) 16 x y}"
  using assms
  by (simp add: shape_calls_def set_backplate_calls isInside_spec signWidth_def signHeight_def)

theorem backplate_cross_section_witness:
  "shape_calls example_hanging = backplate_calls example_hanging
   \<and> (5, 0, 17, 1) \<in> set (shape_calls example_hanging)
   \<and> (0, 0, 17, 1) \<notin> set (shape_calls example_hanging)
   \<and> (1, 1, 16, 1) \<in> set (shape_calls example_hanging)
   \<and> (5, 0, 18, 1) \<notin> set (shape_calls example_hanging)
   \<and> (5, 0, 15, 1) \<notin> set (shape_calls example_hanging)"
proof -
  have h: "signType example_hanging = hanging"
    and w: "hangingWidth example_hanging = 48" and t: "hangingSignThickness example_hanging = 2"
    by (simp_all add: example_hanging_def)
  have d: "spec_distance x y cx cy \<le> 4 \<longleftrightarrow>
     (of_int (x - cx) + 1/2 :: rat)\<^sup>2 + (of_int (y - cy) + 1/2)\<^sup>2 \<le> 4\<^sup>2" for x y cx cy
    using spec_distance_le [of 4 x y cx cy] by simp
  note c = backplate_cross_section [OF h]
  from c have a: "shape_calls example_hanging = backplate_calls example_hanging"
    by (rule conjunct1)
  from c have b: "set (shape_calls example_hanging)
             = {(x, y, z, 1) | x y z. 16 \<le> z \<and> z < 16 + 2
                  \<and> 0 \<le> x \<and> x < 48 \<and> 0 \<le> y \<and> y < 16 \<and> spec_rounded_rectangle 48 16 x y}"
    unfolding w t by (rule conjunct2)
  have "(5, 0, 17, 1) \<in> set (shape_calls example_hanging)"
    and "(0, 0, 17, 1) \<notin> set (shape_calls example_hanging)"
    and "(1, 1, 16, 1) \<in> set (shape_calls example_hanging)"
    and "(5, 0, 18, 1) \<notin> set (shape_calls example_hanging)"
    and "(5, 0, 15, 1) \<notin> set (shape_calls example_hanging)"
    by (simp_all add: b spec_rounded_rectangle_def d power2_eq_square)
  with a show ?thesis by simp
qed

subsection \<open>The frame of a standard sign\<close>

lemma set_frame_calls:
  "set (frame_calls p) =
     {(x, y, 15, 2) | x y. 0 \<le> x \<and> x < signWidth p \<and> 0 \<le> y \<and> y < signHeight p \<and> isFrame p x y}"
  by (auto simp: frame_calls_def)

lemma isFrame_iff:
  "isFrame p x y \<longleftrightarrow>
     (y < frameWidth p \<or> signHeight p - frameWidth p \<le> y
        \<or> x < frameWidth p \<or> signWidth p - frameWidth p \<le> x)
     \<and> \<not> checkCorner x y (frameWidth p * 2) (frameWidth p * 2) (frameWidth p * 2)
     \<and> \<not> checkCorner x y (signWidth p - 1 - frameWidth p * 2) (frameWidth p * 2) (frameWidth p * 2)
     \<and> \<not> checkCorner x y (frameWidth p * 2) (signHeight p - 1 - frameWidth p * 2) (frameWidth p * 2)
     \<and> \<not> checkCorner x y (signWidth p - 1 - frameWidth p * 2)
           (signHeight p - 1 - frameWidth p * 2) (frameWidth p * 2)"
  by (auto simp: isFrame_def Let_def)

lemma map_of_run_calls_const:
  "\<forall>c \<in> set cs. call_key c = k \<longrightarrow> call_color c = v \<Longrightarrow> k \<in> call_key ` set cs \<Longrightarrow>
   map_of (run_calls m cs) k = Some v"
proof (induction cs rule: rev_induct)
  case Nil
  then show ?case by simp
next
  case (snoc c cs)
  show ?case
  proof (cases "call_key c = k")
    case True
    with snoc.prems show ?thesis by (simp add: map_of_run_calls_snoc)
  next
    case False
    with snoc.prems have "k \<in> call_key ` set cs" by auto
    with snoc False show ?thesis by (simp add: map_of_run_calls_snoc)
  qed
qed

lemma example_framed_items: "contentItems example_env example_framed = Inr []"
  by (simp add: contentItems_def example_framed_def hasText_def hasIcon_def)

lemma example_framed_valid: "SignToVoxInputSchema_parse example_framed = Inr example_framed"
  by (simp add: SignToVoxInputSchema_parse_def example_framed_def)

text \<open>
  Claim C3.  The claim says that every cell inside a corner's bounding square of side
  \<open>cornerRadius\<close> and farther than \<open>cornerRadius\<close> from the rounding center is unmarked,
  so that no frame voxel is there.  The code's test \<^verbatim>\<open>checkCorner\<close> instead looks at the open
  window \<open>\<bar>x - cx\<bar> < radius\<close>, \<open>\<bar>y - cy\<bar> < radius\<close> around the rounding center, which
  never contains the outermost row and column of the plane.  On the framed sign of 48 by
  40 with frame width 2 the corner cell \<open>(0, 0)\<close> lies in the corner square of side 4 and
  at distance more than 4 from the center \<open>(4, 4)\<close>, yet it stays marked: the frame loop
  calls \<^verbatim>\<open>addVoxel(0, 0, 15, 2)\<close> and the final map holds index 2 at \<open>(0, 0, 15)\<close>.  The
  same window reaches past the corner square: the cell \<open>(7, 1)\<close> of the top edge is in no
  corner square, yet \<^verbatim>\<open>checkCorner\<close> holds there and the frame loop leaves it out.
\<close>

theorem frame_corner_cell_not_carved:
  "spec_corner_cutout 48 40 4 0 0
   \<and> \<not> checkCorner 0 0 4 4 4
   \<and> isFrame example_framed 0 0
   \<and> (0, 0, 15, 2) \<in> set (frame_calls example_framed)
   \<and> (\<exists>out. generateSignToVoxFlow example_env example_framed = Inr out)
   \<and> voxel_calls example_env example_framed = Inr (frame_calls example_framed @ [(0, 0, 0, 2)])
   \<and> map_of (run_calls [] (frame_calls example_framed @ [(0, 0, 0, 2)])) (0, 0, 15) = Some 2
   \<and> \<not> spec_corner_cutout 48 40 4 7 1
   \<and> checkCorner 7 1 4 4 4
   \<and> (7, 1, 15, 2) \<notin> set (frame_calls example_framed)"
proof -
  have cut: "spec_corner_cutout 48 40 4 0 0"
    using spec_distance_gt [of 4 0 0 4 4]
    by (simp add: spec_corner_cutout_def power2_eq_square)
  have nc: "\<not> checkCorner 0 0 4 4 4"
    by (simp add: checkCorner_def)
  have fr: "isFrame example_framed 0 0"
    by (simp add: isFrame_iff checkCorner_def example_framed_def signWidth_def signHeight_def)
  then have mem: "(0, 0, 15, 2) \<in> set (frame_calls example_framed)"
    by (simp add: set_frame_calls example_framed_def signWidth_def signHeight_def)
  have ret: "\<exists>out. generateSignToVoxFlow example_env example_framed = Inr out"
    using example_framed_valid example_framed_items by (rule flow_returns)
  have sh: "shape_calls example_framed = frame_calls example_framed"
    by (simp add: shape_calls_def example_framed_def)
  have calls: "voxel_calls example_env example_framed
      = Inr (frame_calls example_framed @ [(0, 0, 0, 2)])"
    by (simp add: voxel_calls_def example_framed_items sh content_calls_def anchor_call_def)
  have k: "call_key (0, 0, 15, 2) = (0, 0, 15)"
    by (simp add: call_key_def voxel_key_def toInt32_id)
  have "\<forall>c \<in> set (frame_calls example_framed). call_key c = (0, 0, 15) \<longrightarrow> call_color c = 2"
    by (auto simp: set_frame_calls call_color_def)
  moreover from mem k have "(0, 0, 15) \<in> call_key ` set (frame_calls example_framed)"
    by force
  ultimately have "map_of (run_calls [] (frame_calls example_framed)) (0, 0, 15) = Some 2"
    by (rule map_of_run_calls_const)
  then have "map_of (run_calls [] (frame_calls example_framed @ [(0, 0, 0, 2)])) (0, 0, 15) = Some 2"
    using anchor_key by (simp add: map_of_run_calls_snoc anchor_call_def)
  moreover have "\<not> spec_corner_cutout 48 40 4 7 1"
    by (simp add: spec_corner_cutout_def)
  moreover have cc: "checkCorner 7 1 4 4 4"
    by (simp add: checkCorner_def power2_eq_square)
  moreover from cc have "(7, 1, 15, 2) \<notin> set (frame_calls example_framed)"
    by (simp add: set_frame_calls isFrame_iff example_framed_def)
  ultimately show ?thesis
    using cut nc fr mem ret calls by (intro conjI)
qed

subsection \<open>The content items\<close>

lemma trim_Nil: "trim [] = []"
  by (simp add: trim_def)

lemma hasText_iff: "hasText p \<longleftrightarrow> trim (sign_text p) \<noteq> []"
  using trim_Nil by (auto simp: hasText_def)

lemma hasIcon_iff: "hasIcon p \<longleftrightarrow> (\<exists>ic. icon p = Some ic \<and> pixels ic \<noteq> [] \<and> signWithIcon p)"
  by (auto simp: hasIcon_def split: option.splits)

lemma contentItems_D:
  assumes "contentItems env p = Inr items"
  obtains rs cp where
    "items = (if signType p = hanging \<and> hangingIconPosition p = right then rev else id)
               ((if hasIcon p then [icon_item p] else [])
                @ (if hasText p then [text_item p rs cp] else []))"
  using assms
  by (auto simp: contentItems_def Let_def split: if_splits sum.splits)

lemma itype_icon_item: "itype (icon_item p) = IconItem"
  by (simp add: icon_item_def Let_def)

lemma itype_text_item: "itype (text_item p rs cp) = TextItem"
  by (simp add: text_item_def Let_def)

text \<open>
  Claim C8.  Whenever the items are built (the rasterizer, if called, has answered and the
  array of the text bitmap could be made), there is an icon item iff an icon was supplied
  whose pixel array is not empty and the with-icon flag is set, and a text item iff the
  text is not empty after trimming; there is at most one of each; when both are there the
  icon comes first, except on a hanging sign with icon position right, where the text
  comes first.
\<close>

theorem content_items_order:
  assumes "contentItems env p = Inr items"
  shows "((\<exists>item \<in> set items. itype item = IconItem)
            \<longleftrightarrow> (\<exists>ic. icon p = Some ic \<and> pixels ic \<noteq> [] \<and> signWithIcon p))
         \<and> ((\<exists>item \<in> set items. itype item = TextItem) \<longleftrightarrow> trim (sign_text p) \<noteq> [])
         \<and> length (filter (\<lambda>item. itype item = IconItem) items) \<le> 1
         \<and> length (filter (\<lambda>item. itype item = TextItem) items) \<le> 1
         \<and> ((\<exists>ic. icon p = Some ic \<and> pixels ic \<noteq> [] \<and> signWithIcon p) \<and> trim (sign_text p) \<noteq> []
              \<longrightarrow> map itype items
                    = (if signType p = hanging \<and> hangingIconPosition p = right
                       then [TextItem, IconItem] else [IconItem, TextItem]))"
proof -
  from assms obtain rs cp where
    "items = (if signType p = hanging \<and> hangingIconPosition p = right then rev else id)
               ((if hasIcon p then [icon_item p] else [])
                @ (if hasText p then [text_item p rs cp] else []))"
    by (rule contentItems_D)
  then show ?thesis
    unfolding hasIcon_iff [symmetric] hasText_iff [symmetric]
    by (simp add: itype_icon_item itype_text_item)
qed

theorem content_items_order_witness:
  "\<exists>items. contentItems example_env example_hanging = Inr items
     \<and> (\<exists>item \<in> set items. itype item = IconItem)
     \<and> (\<exists>item \<in> set items. itype item = TextItem)
     \<and> map itype items = [TextItem, IconItem]"
proof -
  from example_hanging_items obtain items
    where i: "contentItems example_env example_hanging = Inr items" by (elim exE conjE)
  have ic: "\<exists>ic. icon example_hanging = Some ic \<and> pixels ic \<noteq> [] \<and> signWithIcon example_hanging"
    by (simp add: example_hanging_def example_icon_def)
  have tx: "trim (sign_text example_hanging) \<noteq> []"
    by (simp add: example_hanging_def trim_def isWhiteSpace_def)
  have hr: "signType example_hanging = hanging \<and> hangingIconPosition example_hanging = right"
    by (simp add: example_hanging_def)
  note th = content_items_order [OF i]
  from th have c1: "(\<exists>item \<in> set items. itype item = IconItem)
      \<longleftrightarrow> (\<exists>ic. icon example_hanging = Some ic \<and> pixels ic \<noteq> [] \<and> signWithIcon example_hanging)"
    by (rule conjunct1)
  from th have c2: "(\<exists>item \<in> set items. itype item = TextItem)
      \<longleftrightarrow> trim (sign_text example_hanging) \<noteq> []"
    by (rule conjunct2 [THEN conjunct1])
  from th have c5: "(\<exists>ic. icon example_hanging = Some ic \<and> pixels ic \<noteq> [] \<and> signWithIcon example_hanging)
        \<and> trim (sign_text example_hanging) \<noteq> []
      \<longrightarrow> map itype items
          = (if signType example_hanging = hanging \<and> hangingIconPosition example_hanging = right
             then [TextItem, IconItem] else [IconItem, TextItem])"
    by (rule conjunct2 [THEN conjunct2, THEN conjunct2, THEN conjunct2])
  from c1 ic have e1: "\<exists>item \<in> set items. itype item = IconItem"
    by (rule iffD2)
  from c2 tx have e2: "\<exists>item \<in> set items. itype item = TextItem"
    by (rule iffD2)
  from c5 conjI [OF ic tx] have "map itype items
      = (if signType example_hanging = hanging \<and> hangingIconPosition example_hanging = right
         then [TextItem, IconItem] else [IconItem, TextItem])"
    by (rule mp)
  also from hr have "\<dots> = [TextItem, IconItem]"
    by (rule if_P)
  finally have e3: "map itype items = [TextItem, IconItem]" .
  from i e1 e2 e3 show ?thesis
    by (intro exI [of _ items] conjI)
qed

subsection \<open>Horizontal placement\<close>

lemma foldl_add_sum_list:
  "foldl (\<lambda>sum item. sum + f item) (a::int) items = a + sum_list (map f items)"
  by (induction items arbitrary: a) simp_all

lemma upt_0_Suc: "[0..<Suc n] = 0 # map Suc [0..<n]"
  by (simp add: upt_conv_Cons map_Suc_upt del: upt_Suc)

lemma place_items_eq:
  "place_items p items cx =
     (concat (map (\<lambda>k. paint_item p (items ! k)
                          (cx + sum_list (map (\<lambda>it. itemWidth p it + 4) (take k items))))
                  [0..<length items]),
      cx + sum_list (map (\<lambda>it. itemWidth p it + 4) items))"
proof (induction items arbitrary: cx)
  case Nil
  show ?case by simp
next
  case (Cons item rest)
  show ?case
    by (simp add: Cons.IH upt_0_Suc spacing_def comp_def add.assoc del: upt_Suc)
qed

lemma example_hanging_widths:
  "\<exists>items. contentItems example_env example_hanging = Inr items
     \<and> map itype items = [TextItem, IconItem] \<and> map iwidth items = [44, 2]"
  by (simp add: contentItems_def example_env_def example_hanging_def hasText_def trim_def
      isWhiteSpace_def Array_fill_false_def availableWidth_def signWidth_def pad_def hasIcon_def
      example_icon_def text_item_def icon_item_def Let_def)

text \<open>
  Claim C4.  Whenever the items are built: the width the layout uses for a text item of a
  hanging sign, when an icon item is present, is its bitmap width minus the icon's width
  plus 4; for every other item it is the bitmap width.  The total content width is the
  sum of these widths, plus 4 when there is more than one item.  The cursor starts at the
  padding plus the floor of half the difference between the available and the total
  width.  The \<open>k\<close>-th item is painted with the cursor at the start plus the widths of the
  items before it, each increased by 4, and the cursor ends past all of them.
\<close>

theorem content_layout:
  assumes "contentItems env p = Inr items"
  shows "(\<forall>item \<in> set items. \<forall>ic \<in> set items.
            itype item = TextItem \<and> signType p = hanging \<and> itype ic = IconItem
            \<longrightarrow> itemWidth p item = iwidth item - (iwidth ic + 4))
         \<and> (\<forall>item \<in> set items.
            \<not> (itype item = TextItem \<and> signType p = hanging \<and> (\<exists>ic \<in> set items. itype ic = IconItem))
            \<longrightarrow> itemWidth p item = iwidth item)
         \<and> totalContentWidth p items
             = sum_list (map (itemWidth p) items) + (if length items > 1 then 4 else 0)
         \<and> startX p items = pad p + (availableWidth p - totalContentWidth p items) div 2
         \<and> content_calls p items
             = concat (map (\<lambda>k. paint_item p (items ! k)
                                  (startX p items
                                   + sum_list (map (\<lambda>it. itemWidth p it + 4) (take k items))))
                           [0..<length items])
         \<and> snd (place_items p items (startX p items))
             = startX p items + sum_list (map (\<lambda>it. itemWidth p it + 4) items)"
proof -
  from assms obtain rs cp where
    items: "items = (if signType p = hanging \<and> hangingIconPosition p = right then rev else id)
               ((if hasIcon p then [icon_item p] else [])
                @ (if hasText p then [text_item p rs cp] else []))"
    by (rule contentItems_D)
  have icon_w: "iwidth (icon_item p) = pwidth (the (icon p))"
    by (simp add: icon_item_def Let_def)
  have set_items: "set items = (if hasIcon p then {icon_item p} else {})
                              \<union> (if hasText p then {text_item p rs cp} else {})"
    unfolding items by (cases "signType p = hanging \<and> hangingIconPosition p = right") auto
  have w1: "\<forall>item \<in> set items. \<forall>ic \<in> set items.
            itype item = TextItem \<and> signType p = hanging \<and> itype ic = IconItem
            \<longrightarrow> itemWidth p item = iwidth item - (iwidth ic + 4)"
  proof (intro ballI impI)
    fix item ic
    assume "item \<in> set items" and ic: "ic \<in> set items"
      and h: "itype item = TextItem \<and> signType p = hanging \<and> itype ic = IconItem"
    from ic h have "hasIcon p \<and> ic = icon_item p"
      unfolding set_items by (cases "hasIcon p"; cases "hasText p") (auto simp: itype_text_item)
    with h show "itemWidth p item = iwidth item - (iwidth ic + 4)"
      by (simp add: itemWidth_def icon_w spacing_def)
  qed
  have w2: "\<forall>item \<in> set items.
            \<not> (itype item = TextItem \<and> signType p = hanging \<and> (\<exists>ic \<in> set items. itype ic = IconItem))
            \<longrightarrow> itemWidth p item = iwidth item"
  proof (intro ballI impI)
    fix item
    assume "item \<in> set items"
      and n: "\<not> (itype item = TextItem \<and> signType p = hanging
                 \<and> (\<exists>ic \<in> set items. itype ic = IconItem))"
    show "itemWidth p item = iwidth item"
    proof (cases "itype item = TextItem \<and> hasIcon p \<and> signType p = hanging")
      case True
      then have "icon_item p \<in> set items"
        unfolding set_items by simp
      with True n itype_icon_item [of p] show ?thesis by blast
    next
      case False
      then show ?thesis by (auto simp: itemWidth_def)
    qed
  qed
  have t: "totalContentWidth p items
             = sum_list (map (itemWidth p) items) + (if length items > 1 then 4 else 0)"
    by (simp add: totalContentWidth_def foldl_add_sum_list spacing_def)
  have s: "startX p items = pad p + (availableWidth p - totalContentWidth p items) div 2"
    by (simp add: startX_def)
  have c: "content_calls p items
             = concat (map (\<lambda>k. paint_item p (items ! k)
                                  (startX p items
                                   + sum_list (map (\<lambda>it. itemWidth p it + 4) (take k items))))
                           [0..<length items])"
    by (simp add: content_calls_def place_items_eq)
  have f: "snd (place_items p items (startX p items))
             = startX p items + sum_list (map (\<lambda>it. itemWidth p it + 4) items)"
    by (simp add: place_items_eq)
  from w1 w2 t s c f show ?thesis by (intro conjI)
qed

theorem content_layout_witness:
  "\<exists>items. contentItems example_env example_hanging = Inr items
     \<and> map (itemWidth example_hanging) items = [38, 2]
     \<and> totalContentWidth example_hanging items = 44
     \<and> startX example_hanging items = 2
     \<and> snd (place_items example_hanging items (startX example_hanging items)) = 50"
proof -
  from example_hanging_widths obtain items
    where i: "contentItems example_env example_hanging = Inr items"
      and ty: "map itype items = [TextItem, IconItem]" and wd: "map iwidth items = [44, 2]"
    by (elim exE conjE)
  from ty obtain tx ic where items: "items = [tx, ic]"
    by (cases items; cases "tl items") auto
  with ty wd have f: "itype tx = TextItem" "itype ic = IconItem" "iwidth tx = 44" "iwidth ic = 2"
    by simp_all
  have h: "signType example_hanging = hanging"
    by (simp add: example_hanging_def)
  have pd: "pad example_hanging = 2" and aw: "availableWidth example_hanging = 44"
    by (simp_all add: pad_def availableWidth_def signWidth_def example_hanging_def)
  note th = content_layout [OF i]
  from th have "\<forall>item \<in> set items. \<forall>ic \<in> set items.
            itype item = TextItem \<and> signType example_hanging = hanging \<and> itype ic = IconItem
            \<longrightarrow> itemWidth example_hanging item = iwidth item - (iwidth ic + 4)"
    by (rule conjunct1)
  with f h have w1: "itemWidth example_hanging tx = 38"
    by (simp add: items)
  from th have "\<forall>item \<in> set items.
            \<not> (itype item = TextItem \<and> signType example_hanging = hanging
               \<and> (\<exists>ic \<in> set items. itype ic = IconItem))
            \<longrightarrow> itemWidth example_hanging item = iwidth item"
    by (rule conjunct2 [THEN conjunct1])
  with f have w2: "itemWidth example_hanging ic = 2"
    by (simp add: items)
  from th have "totalContentWidth example_hanging items
             = sum_list (map (itemWidth example_hanging) items) + (if length items > 1 then 4 else 0)"
    by (rule conjunct2 [THEN conjunct2, THEN conjunct1])
  with w1 w2 have t: "totalContentWidth example_hanging items = 44"
    by (simp add: items)
  from th have "startX example_hanging items
      = pad example_hanging + (availableWidth example_hanging - totalContentWidth example_hanging items) div 2"
    by (rule conjunct2 [THEN conjunct2, THEN conjunct2, THEN conjunct1])
  with t pd aw have s: "startX example_hanging items = 2"
    by simp
  from th have "snd (place_items example_hanging items (startX example_hanging items))
             = startX example_hanging items
               + sum_list (map (\<lambda>it. itemWidth example_hanging it + 4) items)"
    by (rule conjunct2 [THEN conjunct2, THEN conjunct2, THEN conjunct2, THEN conjunct2])
  with s w1 w2 have e: "snd (place_items example_hanging items (startX example_hanging items)) = 50"
    by (simp add: items)
  from w1 w2 have m: "map (itemWidth example_hanging) items = [38, 2]"
    by (simp add: items)
  from i m t s e show ?thesis
    by (intro exI [of _ items] conjI)
qed

subsection \<open>Fields without influence\<close>

lemma agree_fields:
  assumes "agree p q"
  shows "signType q = signType p" "width q = width p" "height q = height p" "frame q = frame p"
    "frameWidth q = frameWidth p" "hangingWidth q = hangingWidth p"
    "hangingIconPosition q = hangingIconPosition p"
    "hangingSignThickness q = hangingSignThickness p"
    "icon q = icon p" "sign_text q = sign_text p" "signWithIcon q = signWithIcon p"
  using assms by (simp_all add: agree_def)

lemma agree_offsets:
  assumes "agree p q"
  shows "(if signType p = hanging then hangingSignIconOffsetX q else 0)
           = (if signType p = hanging then hangingSignIconOffsetX p else 0)"
    "(if signType p = hanging then hangingSignTextOffsetX q else 0)
           = (if signType p = hanging then hangingSignTextOffsetX p else 0)"
    "(if signType p = standard then signIconOffsetY q else 0)
           = (if signType p = standard then signIconOffsetY p else 0)"
    "(if signType p = standard then textOffsetY q else 0)
           = (if signType p = standard then textOffsetY p else 0)"
  using assms by (auto simp: agree_def)

lemma agree_dims:
  assumes "agree p q"
  shows "signWidth q = signWidth p" "signHeight q = signHeight p" "pad q = pad p"
    "hasIcon q = hasIcon p" "hasText q = hasText p"
  by (simp_all add: signWidth_def signHeight_def pad_def hasIcon_def hasText_def
      agree_fields [OF assms] cong: option.case_cong)

lemma agree_available:
  assumes "agree p q"
  shows "availableWidth q = availableWidth p" "availableHeight q = availableHeight p"
  by (simp_all add: availableWidth_def availableHeight_def agree_dims [OF assms])

lemma agree_shape:
  assumes "agree p q"
  shows "shape_calls q = shape_calls p"
proof -
  have "isFrame q = isFrame p"
    by (intro ext) (simp add: isFrame_def agree_dims [OF assms] agree_fields [OF assms])
  then have f: "frame_calls q = frame_calls p"
    by (simp add: frame_calls_def agree_dims [OF assms])
  have "isInside q = isInside p"
    by (intro ext) (simp add: isInside_def agree_dims [OF assms])
  then have b: "backplate_calls q = backplate_calls p"
    by (simp add: backplate_calls_def agree_dims [OF assms] agree_fields [OF assms])
  show ?thesis
    by (simp add: shape_calls_def f b agree_fields [OF assms])
qed

lemma agree_items:
  assumes "agree p q"
  shows "contentItems env q = contentItems env p"
proof -
  have i: "icon_item q = icon_item p"
    by (simp add: icon_item_def agree_fields [OF assms] agree_offsets [OF assms])
  have t: "text_item q = text_item p"
    by (intro ext) (simp add: text_item_def agree_fields [OF assms] agree_offsets [OF assms]
        agree_available [OF assms])
  show ?thesis
    by (simp add: contentItems_def i t agree_fields [OF assms] agree_dims [OF assms]
        agree_available [OF assms] cong: sum.case_cong if_cong)
qed

lemma agree_content:
  assumes "agree p q"
  shows "content_calls q items = content_calls p items"
proof -
  have w: "itemWidth q = itemWidth p"
    by (intro ext) (simp add: itemWidth_def agree_fields [OF assms] agree_dims [OF assms])
  have pt: "paint_item q = paint_item p"
    by (intro ext) (simp add: paint_item_def agree_fields [OF assms] agree_dims [OF assms]
        agree_available [OF assms] cong: if_cong)
  have pl: "place_items q its cx = place_items p its cx" for its cx
    by (induction its arbitrary: cx) (simp_all add: w pt)
  have s: "startX q items = startX p items"
    by (simp add: startX_def totalContentWidth_def w agree_dims [OF assms]
        agree_available [OF assms])
  show ?thesis
    by (simp add: content_calls_def pl s)
qed

lemma agree_flow:
  assumes "agree p q"
  shows "generateSignToVoxFlow env q = generateSignToVoxFlow env p"
proof -
  have c: "voxel_calls env q = voxel_calls env p"
    by (simp add: voxel_calls_def agree_items [OF assms] agree_shape [OF assms]
        agree_content [OF assms] cong: sum.case_cong)
  have v: "voxObject q = voxObject p"
    by (intro ext) (simp add: voxObject_def agree_dims [OF assms])
  have pq: "SignToVoxInputSchema_parse q = map_sum id (\<lambda>_. q) (SignToVoxInputSchema_parse p)"
    by (simp add: SignToVoxInputSchema_parse_def agree_fields [OF assms])
  show ?thesis
  proof (cases "SignToVoxInputSchema_parse p")
    case (Inl e)
    then show ?thesis
      by (simp add: generateSignToVoxFlow_def pq)
  next
    case (Inr p0)
    then have "p0 = p"
      by (simp add: SignToVoxInputSchema_parse_def split: if_splits)
    with Inr show ?thesis
      by (simp add: generateSignToVoxFlow_def pq c v Let_def agree_dims [OF assms]
          cong: sum.case_cong)
  qed
qed

text \<open>
  Claim C10.  On a hanging sign the result of the flow (the output or the error) does not
  change when \<^verbatim>\<open>signIconOffsetY\<close> and \<^verbatim>\<open>textOffsetY\<close> are replaced by any other values; on a
  standard sign it does not change when \<^verbatim>\<open>hangingSignIconOffsetX\<close> and
  \<^verbatim>\<open>hangingSignTextOffsetX\<close> are replaced; and it never changes when \<^verbatim>\<open>signIconScale\<close> is
  replaced.
\<close>

theorem unused_fields_do_not_matter:
  "(signType p = hanging \<longrightarrow>
      generateSignToVoxFlow env (p\<lparr>signIconOffsetY := oi, textOffsetY := ot\<rparr>)
        = generateSignToVoxFlow env p)
   \<and> (signType p = standard \<longrightarrow>
      generateSignToVoxFlow env (p\<lparr>hangingSignIconOffsetX := xi, hangingSignTextOffsetX := xt\<rparr>)
        = generateSignToVoxFlow env p)
   \<and> generateSignToVoxFlow env (p\<lparr>signIconScale := sc\<rparr>) = generateSignToVoxFlow env p"
proof (intro conjI impI)
  assume "signType p = hanging"
  then have "agree p (p\<lparr>signIconOffsetY := oi, textOffsetY := ot\<rparr>)"
    by (simp add: agree_def)
  then show "generateSignToVoxFlow env (p\<lparr>signIconOffsetY := oi, textOffsetY := ot\<rparr>)
        = generateSignToVoxFlow env p"
    by (rule agree_flow)
next
  assume "signType p = standard"
  then have "agree p (p\<lparr>hangingSignIconOffsetX := xi, hangingSignTextOffsetX := xt\<rparr>)"
    by (simp add: agree_def)
  then show "generateSignToVoxFlow env (p\<lparr>hangingSignIconOffsetX := xi, hangingSignTextOffsetX := xt\<rparr>)
        = generateSignToVoxFlow env p"
    by (rule agree_flow)
next
  have "agree p (p\<lparr>signIconScale := sc\<rparr>)"
    by (cases "signType p") (simp_all add: agree_def)
  then show "generateSignToVoxFlow env (p\<lparr>signIconScale := sc\<rparr>) = generateSignToVoxFlow env p"
    by (rule agree_flow)
qed

theorem unused_fields_do_not_matter_witness:
  "generateSignToVoxFlow example_env (example_hanging\<lparr>signIconOffsetY := 9, textOffsetY := - 4\<rparr>)
     = generateSignToVoxFlow example_env example_hanging
   \<and> generateSignToVoxFlow example_env
        (example_plain\<lparr>hangingSignIconOffsetX := 7, hangingSignTextOffsetX := - 3\<rparr>)
     = Inr example_plain_out
   \<and> generateSignToVoxFlow example_env (example_plain\<lparr>signIconScale := 1 / 3\<rparr>)
     = Inr example_plain_out"
proof -
  have h: "signType example_hanging = hanging"
    by (simp add: example_hanging_def)
  have s: "signType example_plain = standard"
    by (simp add: example_plain_def)
  from unused_fields_do_not_matter
      [where p = example_hanging and env = example_env and oi = 9 and ot = "- 4", THEN conjunct1] h
  have 1: "generateSignToVoxFlow example_env (example_hanging\<lparr>signIconOffsetY := 9, textOffsetY := - 4\<rparr>)
     = generateSignToVoxFlow example_env example_hanging"
    by (rule mp)
  from unused_fields_do_not_matter
      [where p = example_plain and env = example_env and xi = 7 and xt = "- 3",
        THEN conjunct2, THEN conjunct1] s
  have 2: "generateSignToVoxFlow example_env
        (example_plain\<lparr>hangingSignIconOffsetX := 7, hangingSignTextOffsetX := - 3\<rparr>)
     = generateSignToVoxFlow example_env example_plain"
    by (rule mp)
  have 3: "generateSignToVoxFlow example_env (example_plain\<lparr>signIconScale := 1 / 3\<rparr>)
     = generateSignToVoxFlow example_env example_plain"
    by (rule unused_fields_do_not_matter
        [where p = example_plain and env = example_env and sc = "1 / 3",
          THEN conjunct2, THEN conjunct2])
  from 1 2 3 show ?thesis
    by (simp only: example_plain_returns) 
qed

end
